theory Spec2Isabelle
  imports Main "HOL-Library.Word"
begin

section \<open>Text and bytes\<close>

text \<open>
  \<^verbatim>\<open>web.py\<close> hands Python \<^verbatim>\<open>str\<close> values to the Redis client and gets
  \<^verbatim>\<open>bytes\<close> back (\<^verbatim>\<open>redis.Redis()\<close> is created without
  \<^verbatim>\<open>decode_responses\<close>), which the wrapper turns into text again with
  \<^verbatim>\<open>cache_html.decode('utf-8')\<close>. A \<^verbatim>\<open>str\<close> is a sequence of code points
  (natural numbers below \<open>0x110000\<close>, lone surrogates included); \<^verbatim>\<open>bytes\<close> is a
  sequence of octets.
\<close>

type_synonym byte = "8 word"
type_synonym pystr = "nat list"

text \<open>A continuation octet \<open>10xxxxxx\<close> carrying the low six bits of \<open>n\<close>.\<close>

definition cont :: "nat \<Rightarrow> byte" where
  "cont n = of_nat (128 + n mod 64)"

text \<open>
  \<^verbatim>\<open>str.encode('utf-8')\<close> with the default strict error handler, one code point at
  a time: one to four octets; a surrogate (\<open>0xD800\<close> to \<open>0xDFFF\<close>) is refused.
\<close>

definition encode_char :: "nat \<Rightarrow> byte list option" where
  "encode_char c =
     (if c < 128 then Some [of_nat c]
      else if c < 2048 then Some [of_nat (192 + c div 64), cont c]
      else if c < 65536 then
        (if 55296 \<le> c \<and> c < 57344 then None
         else Some [of_nat (224 + c div 4096), cont (c div 64), cont c])
      else if c < 1114112 then
        Some [of_nat (240 + c div 262144), cont (c div 4096), cont (c div 64), cont c]
      else None)"

fun utf8_encode :: "pystr \<Rightarrow> byte list option" where
  "utf8_encode [] = Some []"
| "utf8_encode (c # cs) =
     (case encode_char c of
        None \<Rightarrow> None
      | Some bs \<Rightarrow> map_option ((@) bs) (utf8_encode cs))"

definition is_cont :: "byte \<Rightarrow> bool" where
  "is_cont b = (128 \<le> unat b \<and> unat b < 192)"

definition low6 :: "byte \<Rightarrow> nat" where
  "low6 b = unat b - 128"

text \<open>
  \<^verbatim>\<open>bytes.decode('utf-8')\<close>, strict: a stray continuation octet, a truncated
  sequence, an overlong form, an encoded surrogate and a value from \<open>0x110000\<close> on are
  all errors (\<open>None\<close> stands for \<^verbatim>\<open>UnicodeDecodeError\<close>).
\<close>

fun utf8_decode :: "byte list \<Rightarrow> pystr option" where
  "utf8_decode [] = Some []"
| "utf8_decode (b0 # bs) =
     (if unat b0 < 128 then map_option ((#) (unat b0)) (utf8_decode bs)
      else if unat b0 < 192 then None
      else if unat b0 < 224 then
        (case bs of
           b1 # r \<Rightarrow>
             (let c = (unat b0 - 192) * 64 + low6 b1 in
              if is_cont b1 \<and> 128 \<le> c
              then map_option ((#) c) (utf8_decode r) else None)
         | _ \<Rightarrow> None)
      else if unat b0 < 240 then
        (case bs of
           b1 # b2 # r \<Rightarrow>
             (let c = (unat b0 - 224) * 4096 + low6 b1 * 64 + low6 b2 in
              if is_cont b1 \<and> is_cont b2 \<and> 2048 \<le> c \<and> (c < 55296 \<or> 57344 \<le> c)
              then map_option ((#) c) (utf8_decode r) else None)
         | _ \<Rightarrow> None)
      else if unat b0 < 248 then
        (case bs of
           b1 # b2 # b3 # r \<Rightarrow>
             (let c = (unat b0 - 240) * 262144 + low6 b1 * 4096 + low6 b2 * 64 + low6 b3 in
              if is_cont b1 \<and> is_cont b2 \<and> is_cont b3 \<and> 65536 \<le> c \<and> c < 1114112
              then map_option ((#) c) (utf8_decode r) else None)
         | _ \<Rightarrow> None)
      else None)"

section \<open>The Store\<close>

text \<open>
  Modelled from the spec: the Store is the Redis server behind the module-level client
  \<^verbatim>\<open>r = redis.Redis()\<close>; neither server nor client library is among the sources.
  The model follows the contract of section 4.2 and the data model of section 3: counter
  entries are integers without expiry, cache entries are byte payloads that carry the
  time at which they stop being visible, and the Store owns the clock. Both kinds of
  entry are indexed by the full Store key (prefix included). Connection failures are
  not part of the model.
\<close>

record store =
  counters :: "string \<rightharpoonup> int"
  entries :: "string \<rightharpoonup> byte list \<times> nat"
  clock :: nat

text \<open>Exceptions that can leave the wrapper.\<close>

datatype exn = FetchError string | UnicodeEncodeError | UnicodeDecodeError

text \<open>
  Modelled from the spec: \<^verbatim>\<open>r.incr(key)\<close>, section 4.2
  \<open>increment(counterKey)\<close>: create-if-absent, then add 1, return the new value.
\<close>

definition incr :: "string \<Rightarrow> store \<Rightarrow> int \<times> store" where
  "incr key s =
     (let n = (case counters s key of None \<Rightarrow> 0 | Some c \<Rightarrow> c) + 1
      in (n, s\<lparr>counters := (counters s)(key \<mapsto> n)\<rparr>))"

text \<open>
  Modelled from the spec: \<^verbatim>\<open>r.get(key)\<close>, section 4.2 \<open>get(cacheKey)\<close>:
  the payload, or Absent (\<^verbatim>\<open>None\<close>) if the key was never written or its
  time-to-live has elapsed.
\<close>

definition get :: "string \<Rightarrow> store \<Rightarrow> byte list option" where
  "get key s =
     (case entries s key of
        None \<Rightarrow> None
      | Some (v, expires) \<Rightarrow> if clock s < expires then Some v else None)"

text \<open>
  Modelled from the spec: \<^verbatim>\<open>r.setex(key, ttl, value)\<close>, section 4.2
  \<open>setWithExpiry\<close>: unconditional overwrite, the expiry timer restarts at every write.
  The client sends a \<^verbatim>\<open>str\<close> value as its UTF-8 encoding, so a value that cannot
  be encoded raises before anything is written.
\<close>

definition setex :: "string \<Rightarrow> nat \<Rightarrow> pystr \<Rightarrow> store \<Rightarrow> exn + store" where
  "setex key ttl v s =
     (case utf8_encode v of
        None \<Rightarrow> Inl UnicodeEncodeError
      | Some bs \<Rightarrow> Inr (s\<lparr>entries := (entries s)(key \<mapsto> (bs, clock s + ttl))\<rparr>))"

text \<open>Time passing (\<^verbatim>\<open>time.sleep\<close> in the module's demo, or a slow fetch).\<close>

definition sleep :: "nat \<Rightarrow> store \<Rightarrow> store" where
  "sleep d s = s\<lparr>clock := clock s + d\<rparr>"

section \<open>The decorator\<close>

text \<open>The two Store keys of a URL: \<^verbatim>\<open>f"count:{url}"\<close> and \<^verbatim>\<open>f"cached:{url}"\<close>.\<close>

definition count_key :: "string \<Rightarrow> string" where
  "count_key url = ''count:'' @ url"

definition cached_key :: "string \<Rightarrow> string" where
  "cached_key url = ''cached:'' @ url"

text \<open>
  The decorated function \<^verbatim>\<open>method\<close>: called at a time with a URL, it returns a
  \<^verbatim>\<open>str\<close> or raises, and takes some time to do so.
\<close>

type_synonym fetcher = "nat \<Rightarrow> string \<Rightarrow> (exn + pystr) \<times> nat"

text \<open>Python's truth value of what \<^verbatim>\<open>r.get\<close> returned: \<^verbatim>\<open>None\<close> and \<^verbatim>\<open>b''\<close> are false.\<close>

fun truthy :: "byte list option \<Rightarrow> bool" where
  "truthy None = False"
| "truthy (Some bs) = (bs \<noteq> [])"

text \<open>
  What one call of \<^verbatim>\<open>wrapper(url)\<close> does: the value returned or the exception
  raised, the Store afterwards, and the URLs on which \<^verbatim>\<open>method\<close> was called.
\<close>

record outcome =
  returned :: "exn + pystr"
  final :: store
  fetched :: "string list"

definition wrapper :: "fetcher \<Rightarrow> string \<Rightarrow> store \<Rightarrow> outcome" where
  "wrapper method url s0 =
     (let s1 = snd (incr (count_key url) s0);
          cache_html = get (cached_key url) s1
      in case (if truthy cache_html then cache_html else None) of
           Some bs \<Rightarrow>
             \<lparr>returned = (case utf8_decode bs of
                            None \<Rightarrow> Inl UnicodeDecodeError
                          | Some text \<Rightarrow> Inr text),
              final = s1, fetched = []\<rparr>
         | None \<Rightarrow>
             (let (res, d) = method (clock s1) url;
                  s2 = sleep d s1
              in case res of
                   Inl e \<Rightarrow> \<lparr>returned = Inl e, final = s2, fetched = [url]\<rparr>
                 | Inr html \<Rightarrow>
                     (case setex (cached_key url) 10 html s2 of
                        Inl e \<Rightarrow> \<lparr>returned = Inl e, final = s2, fetched = [url]\<rparr>
                      | Inr s3 \<Rightarrow> \<lparr>returned = Inr html, final = s3, fetched = [url]\<rparr>)))"

text \<open>
  \<^verbatim>\<open>count_requests(method)\<close> returns that wrapper; the module's
  \<^verbatim>\<open>get_page\<close> is the wrapper around a fetch with \<^verbatim>\<open>requests.get\<close>.
\<close>

definition count_requests :: "fetcher \<Rightarrow> string \<Rightarrow> store \<Rightarrow> outcome" where
  "count_requests method = wrapper method"

text \<open>A session with the decorated function: calls, and time passing between them.\<close>

datatype event = Call string | Sleep nat

fun run :: "fetcher \<Rightarrow> event list \<Rightarrow> store \<Rightarrow> store" where
  "run method [] s = s"
| "run method (Call url # es) s = run method es (final (wrapper method url s))"
| "run method (Sleep d # es) s = run method es (sleep d s)"

text \<open>The counter of a URL as a reader sees it: a counter never incremented reads 0.\<close>

definition counter :: "store \<Rightarrow> string \<Rightarrow> int" where
  "counter s url = (case counters s (count_key url) of None \<Rightarrow> 0 | Some n \<Rightarrow> n)"

text \<open>
  What every entry written by line 56 satisfies, then and at any later time: it expires
  no later than 10 units from now.
\<close>

definition ttl_bounded :: "store \<Rightarrow> string \<Rightarrow> bool" where
  "ttl_bounded s key =
     (case entries s key of None \<Rightarrow> True | Some (v, expires) \<Rightarrow> expires \<le> clock s + 10)"

section \<open>Sample fetchers and stores\<close>

text \<open>A fetcher that always returns the same page after \<open>d\<close> time units.\<close>

definition page_fetcher :: "pystr \<Rightarrow> nat \<Rightarrow> fetcher" where
  "page_fetcher html d t url = (Inr html, d)"

text \<open>A fetcher that always raises after \<open>d\<close> time units.\<close>

definition failing_fetcher :: "exn \<Rightarrow> nat \<Rightarrow> fetcher" where
  "failing_fetcher e d t url = (Inl e, d)"

text \<open>A fresh Redis at time 0, and one that holds a single cache entry.\<close>

definition empty_store :: store where
  "empty_store = \<lparr>counters = Map.empty, entries = Map.empty, clock = 0\<rparr>"

definition store_with_entry :: "string \<Rightarrow> byte list \<Rightarrow> nat \<Rightarrow> store" where
  "store_with_entry key v expires =
     \<lparr>counters = Map.empty, entries = [key \<mapsto> (v, expires)], clock = 0\<rparr>"

section \<open>The codec round trip\<close>

lemma unat_byte: "n < 256 \<Longrightarrow> unat (of_nat n :: byte) = n"
  by (simp add: unat_of_nat)

lemma unat_cont: "unat (cont n) = 128 + n mod 64"
proof -
  have "128 + n mod 64 < 256" by simp
  then show ?thesis unfolding cont_def by (rule unat_byte)
qed

lemma cont_props: "is_cont (cont n)" "low6 (cont n) = n mod 64" "\<not> unat (cont n) < 128"
  by (simp_all add: is_cont_def low6_def unat_cont)

lemma div_mod_64: "(q::nat) div 64 * (64 * k) + q mod 64 * k = q * k"
proof -
  have "q * k = (q div 64 * 64 + q mod 64) * k" by simp
  also have "\<dots> = q div 64 * (64 * k) + q mod 64 * k" by (simp only: algebra_simps)
  finally show ?thesis by simp
qed

lemma split3: "(c::nat) div 4096 * 4096 + c div 64 mod 64 * 64 + c mod 64 = c"
proof -
  have "c div 4096 = c div 64 div 64" by (simp add: div_mult2_eq[symmetric])
  then have "c div 4096 * 4096 + c div 64 mod 64 * 64 = c div 64 * 64"
    using div_mod_64[of "c div 64" 64] by simp
  then show ?thesis by simp
qed

lemma split4:
  "(c::nat) div 262144 * 262144 + c div 4096 mod 64 * 4096 + c div 64 mod 64 * 64 + c mod 64 = c"
proof -
  have "c div 262144 = c div 4096 div 64" by (simp add: div_mult2_eq[symmetric])
  then have "c div 262144 * 262144 + c div 4096 mod 64 * 4096 = c div 4096 * 4096"
    using div_mod_64[of "c div 4096" 4096] by simp
  then show ?thesis using split3[of c] by simp
qed

lemma decode_encode_char:
  assumes "encode_char c = Some bs"
  shows "utf8_decode (bs @ rest) = map_option ((#) c) (utf8_decode rest)"
proof -
  consider "c < 128" | "128 \<le> c" "c < 2048" | "2048 \<le> c" "c < 65536" | "65536 \<le> c" "c < 1114112" | "1114112 \<le> c"
    by linarith
  then show ?thesis
  proof cases
    case 1
    with assms show ?thesis by (auto simp: encode_char_def unat_byte)
  next
    case 2
    then have h: "192 + c div 64 < 256" "c div 64 < 32" "c div 64 * 64 + c mod 64 = c" by auto
    from 2 assms have bs: "bs = [of_nat (192 + c div 64), cont c]" by (simp add: encode_char_def)
    show ?thesis unfolding bs using 2
      by (simp add: h split3 split4 unat_byte cont_props Let_def del: of_nat_add)
  next
    case 3
    then have h: "224 + c div 4096 < 256" "c div 4096 < 16"
      by auto
    from 3 assms have bs: "bs = [of_nat (224 + c div 4096), cont (c div 64), cont c]"
      and ns: "c < 55296 \<or> 57344 \<le> c" by (auto simp: encode_char_def split: if_splits)
    show ?thesis unfolding bs using 3 ns
      by (simp add: h split3 split4 unat_byte cont_props Let_def del: of_nat_add)
  next
    case 4
    then have h: "240 + c div 262144 < 256" "c div 262144 < 8"
      by auto
    from 4 assms have bs: "bs = [of_nat (240 + c div 262144), cont (c div 4096), cont (c div 64), cont c]"
      by (auto simp: encode_char_def split: if_splits)
    show ?thesis unfolding bs using 4
      by (simp add: h split3 split4 unat_byte cont_props Let_def del: of_nat_add)
  next
    case 5
    with assms show ?thesis by (auto simp: encode_char_def)
  qed
qed

lemma utf8_roundtrip: "utf8_encode s = Some bs \<Longrightarrow> utf8_decode bs = Some s"
proof (induction s arbitrary: bs)
  case Nil
  then show ?case by simp
next
  case (Cons c cs)
  then show ?case
    by (auto split: option.splits simp: decode_encode_char)
qed

section \<open>How the Store operations act on a store\<close>

lemma incr_simps [simp]:
  "clock (snd (incr key s)) = clock s"
  "entries (snd (incr key s)) = entries s"
  "counters (snd (incr key s)) = (counters s)(key \<mapsto> (case counters s key of None \<Rightarrow> 0 | Some c \<Rightarrow> c) + 1)"
  by (simp_all add: incr_def Let_def)

lemma get_incr [simp]: "get key (snd (incr key' s)) = get key s"
  by (simp add: get_def split: option.splits prod.splits)

lemma sleep_simps [simp]:
  "clock (sleep d s) = clock s + d"
  "entries (sleep d s) = entries s"
  "counters (sleep d s) = counters s"
  by (simp_all add: sleep_def)

section \<open>The paths through the wrapper\<close>

lemma wrapper_hit:
  assumes "get (cached_key url) s = Some bs" and "bs \<noteq> []"
  shows "wrapper method url s =
           \<lparr>returned = (case utf8_decode bs of None \<Rightarrow> Inl UnicodeDecodeError | Some text \<Rightarrow> Inr text),
            final = snd (incr (count_key url) s), fetched = []\<rparr>"
  using assms by (simp add: wrapper_def Let_def)

lemma wrapper_fetch_raises:
  assumes "\<not> truthy (get (cached_key url) s)" and "method (clock s) url = (Inl e, d)"
  shows "wrapper method url s =
           \<lparr>returned = Inl e, final = sleep d (snd (incr (count_key url) s)), fetched = [url]\<rparr>"
  using assms by (simp add: wrapper_def Let_def)

lemma wrapper_setex_raises:
  assumes "\<not> truthy (get (cached_key url) s)" and "method (clock s) url = (Inr html, d)"
    and "utf8_encode html = None"
  shows "wrapper method url s =
           \<lparr>returned = Inl UnicodeEncodeError, final = sleep d (snd (incr (count_key url) s)),
            fetched = [url]\<rparr>"
  using assms by (simp add: wrapper_def Let_def setex_def)

lemma wrapper_miss:
  assumes "\<not> truthy (get (cached_key url) s)" and "method (clock s) url = (Inr html, d)"
    and "utf8_encode html = Some bs"
  shows "wrapper method url s =
           \<lparr>returned = Inr html,
            final = (sleep d (snd (incr (count_key url) s)))
                      \<lparr>entries := (entries s)(cached_key url \<mapsto> (bs, clock s + d + 10))\<rparr>,
            fetched = [url]\<rparr>"
  using assms by (simp add: wrapper_def Let_def setex_def)

lemma wrapper_counters:
  "counters (final (wrapper method url s)) = counters (snd (incr (count_key url) s))"
  by (simp add: wrapper_def Let_def setex_def split: option.splits prod.splits sum.splits)

lemma count_key_inj [simp]: "(count_key a = count_key b) = (a = b)"
  by (simp add: count_key_def)

lemma cached_key_inj [simp]: "(cached_key a = cached_key b) = (a = b)"
  by (simp add: cached_key_def)

lemma count_key_not_cached_key [simp]: "count_key a \<noteq> cached_key b" "cached_key b \<noteq> count_key a"
  by (simp_all add: count_key_def cached_key_def)

lemma counter_wrapper:
  "counter (final (wrapper method url s)) k = counter s k + (if k = url then 1 else 0)"
  by (simp add: counter_def wrapper_counters split: option.splits)

lemma counter_sleep [simp]: "counter (sleep d s) k = counter s k"
  by (simp add: counter_def)

lemma counter_run:
  "counter (run method es s) k = counter s k + int (count_list es (Call k))"
proof (induction es arbitrary: s)
  case Nil
  then show ?case by simp
next
  case (Cons e es)
  show ?case
  proof (cases e)
    case (Call url)
    then show ?thesis by (simp add: Cons.IH counter_wrapper)
  next
    case (Sleep d)
    then show ?thesis by (simp add: Cons.IH)
  qed
qed

lemma fetched_iff_miss:
  "fetched (wrapper method url s) = (if truthy (get (cached_key url) s) then [] else [url])"
  by (simp add: wrapper_def Let_def setex_def split: option.splits prod.splits sum.splits)

lemma wrapper_entries_other:
  "key \<noteq> cached_key url \<Longrightarrow> entries (final (wrapper method url s)) key = entries s key"
  by (simp add: wrapper_def Let_def setex_def split: option.splits prod.splits sum.splits)

lemma wrapper_counters_other:
  "key \<noteq> count_key url \<Longrightarrow> counters (final (wrapper method url s)) key = counters s key"
  by (simp add: wrapper_counters)

lemma hit_serves_cached_page:
  assumes "get (cached_key k) s = Some bs" and "bs \<noteq> []" and "utf8_decode bs = Some page"
  shows "returned (wrapper method k s) = Inr page
       \<and> fetched (wrapper method k s) = []
       \<and> entries (final (wrapper method k s)) = entries s
       \<and> clock (final (wrapper method k s)) = clock s
       \<and> counters (final (wrapper method k s)) = (counters s)(count_key k \<mapsto> counter s k + 1)"
  by (simp add: wrapper_hit [OF assms(1) assms(2)] assms(3) counter_def)

section \<open>Entries never outlive the time-to-live\<close>

lemma ttl_bounded_empty: "ttl_bounded empty_store key"
  by (simp add: ttl_bounded_def empty_store_def)

lemma ttl_bounded_sleep: "ttl_bounded s key \<Longrightarrow> ttl_bounded (sleep d s) key"
  by (auto simp: ttl_bounded_def split: option.splits)

lemma ttl_bounded_wrapper:
  "ttl_bounded s key \<Longrightarrow> ttl_bounded (final (wrapper method url s)) key"
  by (auto simp: ttl_bounded_def wrapper_def Let_def setex_def
      split: option.splits prod.splits sum.splits if_splits)

lemma ttl_bounded_run:
  "ttl_bounded s key \<Longrightarrow> ttl_bounded (run method es s) key"
proof (induction es arbitrary: s)
  case Nil
  then show ?case by simp
next
  case (Cons e es)
  then show ?case
    by (cases e) (simp_all add: ttl_bounded_wrapper ttl_bounded_sleep)
qed

lemma ttl_bounded_expired:
  "ttl_bounded s key \<Longrightarrow> 10 < t \<Longrightarrow> get key (sleep t s) = None"
  by (auto simp: ttl_bounded_def get_def split: option.splits)

lemma wrapper_miss_cases:
  assumes "\<not> truthy (get (cached_key url) s)" and "method (clock s) url = (res, d)"
  shows "fetched (wrapper method url s) = [url]"
    and "clock (final (wrapper method url s)) = clock s + d"
    and "returned (wrapper method url s) =
           (case res of
              Inl e \<Rightarrow> Inl e
            | Inr html \<Rightarrow>
                (case utf8_encode html of None \<Rightarrow> Inl UnicodeEncodeError | Some bs \<Rightarrow> Inr html))"
    and "entries (final (wrapper method url s)) (cached_key url) =
           (case res of
              Inl e \<Rightarrow> entries s (cached_key url)
            | Inr html \<Rightarrow>
                (case utf8_encode html of
                   None \<Rightarrow> entries s (cached_key url)
                 | Some bs \<Rightarrow> Some (bs, clock s + d + 10)))"
  using assms
  by (simp_all add: wrapper_def Let_def setex_def split: option.splits sum.splits)


lemma wrapper_entries:
  "entries (final (wrapper method k s)) =
     (if truthy (get (cached_key k) s) then entries s
      else case fst (method (clock s) k) of
             Inl e \<Rightarrow> entries s
           | Inr html \<Rightarrow>
               (case utf8_encode html of
                  None \<Rightarrow> entries s
                | Some bs \<Rightarrow>
                    (entries s)(cached_key k \<mapsto> (bs, clock (final (wrapper method k s)) + 10))))"
  by (simp add: wrapper_def Let_def setex_def split: option.splits prod.splits sum.splits)

section \<open>Claims\<close>

text \<open>
  C1: through any session of calls and pauses, whatever each call turns out to be (a
  hit, a miss, a fetch that raises, a value that cannot be stored or decoded), the
  counter of a URL grows by exactly the number of calls made on that URL; and in a
  single call the only change to the counters is that increment, applied to the store
  the call started from, before the cache is read.
\<close>

theorem counter_counts_every_call:
  "counter (run method es s) k = counter s k + int (count_list es (Call k))
   \<and> counters (final (wrapper method k s)) = (counters s)(count_key k \<mapsto> counter s k + 1)"
proof
  show "counter (run method es s) k = counter s k + int (count_list es (Call k))"
    by (rule counter_run)
  show "counters (final (wrapper method k s)) = (counters s)(count_key k \<mapsto> counter s k + 1)"
    by (simp add: wrapper_counters counter_def)
qed

text \<open>
  C2: the specification has every present (unexpired) cache entry served from the
  cache, with no fetch and no write. The wrapper, however, tests the truth value of what
  \<^verbatim>\<open>r.get\<close> returned, and the empty byte string is false in Python: with an
  unexpired entry holding \<^verbatim>\<open>b''\<close> (what a call leaves behind after fetching an
  empty page), the call does not return the cached \<^verbatim>\<open>''\<close> but calls the
  underlying function, returns what that gives and overwrites the entry. Entries that
  are not empty are served from the cache (\<open>hit_serves_cached_page\<close>).
\<close>

theorem empty_cached_page_is_fetched_again:
  "get (cached_key ''A'') (store_with_entry (cached_key ''A'') [] 7) = Some []
   \<and> utf8_decode [] = Some []
   \<and> returned (wrapper (page_fetcher [104, 105] 2) ''A'' (store_with_entry (cached_key ''A'') [] 7))
       = Inr [104, 105]
   \<and> fetched (wrapper (page_fetcher [104, 105] 2) ''A'' (store_with_entry (cached_key ''A'') [] 7))
       = [''A'']
   \<and> entries (final (wrapper (page_fetcher [104, 105] 2) ''A'' (store_with_entry (cached_key ''A'') [] 7)))
        (cached_key ''A'') = Some ([104, 105], 12)"
proof -
  let ?s = "store_with_entry (cached_key ''A'') [] 7"
  have g: "get (cached_key ''A'') ?s = Some []"
    by (simp add: get_def store_with_entry_def)
  then have miss: "\<not> truthy (get (cached_key ''A'') ?s)" by simp
  have m: "page_fetcher [104, 105] 2 (clock ?s) ''A'' = (Inr [104, 105], 2)"
    by (simp add: page_fetcher_def)
  have enc: "utf8_encode [104, 105] = Some [104, 105]"
    by (simp add: encode_char_def)
  have w: "wrapper (page_fetcher [104, 105] 2) ''A'' ?s =
      \<lparr>returned = Inr [104, 105],
       final = (sleep 2 (snd (incr (count_key ''A'') ?s)))
                 \<lparr>entries := (entries ?s)(cached_key ''A'' \<mapsto> ([104, 105], clock ?s + 2 + 10))\<rparr>,
       fetched = [''A'']\<rparr>"
    by (rule wrapper_miss [of "''A''" ?s "page_fetcher [104, 105] 2", OF miss m enc])
  have c: "clock ?s = 0" by (simp add: store_with_entry_def)
  show ?thesis unfolding w using g c by simp
qed

text \<open>
  C3: when the cache has no visible entry for the URL (never written, or expired) and
  the underlying function returns a page that can be encoded as UTF-8, the call invokes
  the underlying function exactly once, overwrites the cache slot of the URL with the
  encoding of that page, expiring 10 units after the write, and returns the very page
  the underlying function returned.
\<close>

theorem miss_fetches_stores_and_returns:
  assumes "get (cached_key k) s = None"
    and "method (clock s) k = (Inr html, d)"
    and "utf8_encode html = Some bs"
  shows "fetched (wrapper method k s) = [k]
       \<and> entries (final (wrapper method k s)) (cached_key k) = Some (bs, clock s + d + 10)
       \<and> utf8_decode bs = Some html
       \<and> returned (wrapper method k s) = Inr html"
proof -
  from assms(1) have miss: "\<not> truthy (get (cached_key k) s)" by simp
  show ?thesis
    by (simp add: wrapper_miss [of k s "method", OF miss assms(2) assms(3)]
        utf8_roundtrip [OF assms(3)])
qed

theorem miss_fetches_stores_and_returns_witness:
  "get (cached_key ''A'') (store_with_entry (cached_key ''A'') [111, 108, 100] 0) = None
   \<and> page_fetcher [104, 105] 5 (clock (store_with_entry (cached_key ''A'') [111, 108, 100] 0)) ''A''
       = (Inr [104, 105], 5)
   \<and> utf8_encode [104, 105] = Some [104, 105]
   \<and> fetched (wrapper (page_fetcher [104, 105] 5) ''A''
        (store_with_entry (cached_key ''A'') [111, 108, 100] 0)) = [''A'']
   \<and> entries (final (wrapper (page_fetcher [104, 105] 5) ''A''
        (store_with_entry (cached_key ''A'') [111, 108, 100] 0))) (cached_key ''A'')
       = Some ([104, 105], 15)
   \<and> utf8_decode [104, 105] = Some [104, 105]
   \<and> returned (wrapper (page_fetcher [104, 105] 5) ''A''
        (store_with_entry (cached_key ''A'') [111, 108, 100] 0)) = Inr [104, 105]"
proof -
  have h1: "get (cached_key ''A'') (store_with_entry (cached_key ''A'') [111, 108, 100] 0) = None"
    by (simp add: get_def store_with_entry_def)
  have h2: "page_fetcher [104, 105] 5 (clock (store_with_entry (cached_key ''A'') [111, 108, 100] 0)) ''A''
       = (Inr [104, 105], 5)"
    by (simp add: page_fetcher_def)
  have h3: "utf8_encode [104, 105] = Some [104, 105]"
    by (simp add: encode_char_def)
  have c: "clock (store_with_entry (cached_key ''A'') [111, 108, 100] 0) = 0"
    by (simp add: store_with_entry_def)
  from miss_fetches_stores_and_returns
      [of "''A''" "store_with_entry (cached_key ''A'') [111, 108, 100] 0"
          "page_fetcher [104, 105] 5", OF h1 h2 h3] h1 h2 h3 c
  show ?thesis by simp
qed

text \<open>
  The restriction of C3 to encodable pages is needed: a \<^verbatim>\<open>str\<close> holding a lone surrogate
  (here \<open>U+D800\<close>) cannot be sent to the Store, so the call ends in
  \<^verbatim>\<open>UnicodeEncodeError\<close> after the fetch, with nothing written and nothing returned.
\<close>

theorem unencodable_page_counterexample:
  "get (cached_key ''A'') empty_store = None
   \<and> fetched (wrapper (page_fetcher [55296] 0) ''A'' empty_store) = [''A'']
   \<and> returned (wrapper (page_fetcher [55296] 0) ''A'' empty_store) = Inl UnicodeEncodeError
   \<and> entries (final (wrapper (page_fetcher [55296] 0) ''A'' empty_store)) (cached_key ''A'') = None"
proof -
  have miss: "\<not> truthy (get (cached_key ''A'') empty_store)"
    and absent: "get (cached_key ''A'') empty_store = None"
    by (simp_all add: get_def empty_store_def)
  have m: "page_fetcher [55296] 0 (clock empty_store) ''A'' = (Inr [55296], 0)"
    by (simp add: page_fetcher_def)
  have enc: "utf8_encode [55296] = None"
    by (simp add: encode_char_def)
  have w: "wrapper (page_fetcher [55296] 0) ''A'' empty_store =
      \<lparr>returned = Inl UnicodeEncodeError,
       final = sleep 0 (snd (incr (count_key ''A'') empty_store)), fetched = [''A'']\<rparr>"
    by (rule wrapper_setex_raises [of "''A''" empty_store "page_fetcher [55296] 0", OF miss m enc])
  show ?thesis unfolding w using absent by (simp add: empty_store_def)
qed

text \<open>
  C4: when a call reaches the underlying function (the cache has nothing truthy for the
  URL) and that function raises, the wrapper raises the same exception; the counter of
  the URL has gone up by one all the same, and no cache entry is written.
\<close>

theorem fetch_failure_propagates:
  assumes "\<not> truthy (get (cached_key k) s)" and "method (clock s) k = (Inl e, d)"
  shows "returned (wrapper method k s) = Inl e
       \<and> fetched (wrapper method k s) = [k]
       \<and> counter (final (wrapper method k s)) k = counter s k + 1
       \<and> entries (final (wrapper method k s)) = entries s"
  using assms by (simp add: wrapper_fetch_raises counter_def split: option.splits)

theorem fetch_failure_propagates_witness:
  "\<not> truthy (get (cached_key ''A'') empty_store)
   \<and> failing_fetcher (FetchError ''timeout'') 3 (clock empty_store) ''A'' = (Inl (FetchError ''timeout''), 3)
   \<and> returned (wrapper (failing_fetcher (FetchError ''timeout'') 3) ''A'' empty_store) = Inl (FetchError ''timeout'')
   \<and> fetched (wrapper (failing_fetcher (FetchError ''timeout'') 3) ''A'' empty_store) = [''A'']
   \<and> counter (final (wrapper (failing_fetcher (FetchError ''timeout'') 3) ''A'' empty_store)) ''A'' = 1
   \<and> entries (final (wrapper (failing_fetcher (FetchError ''timeout'') 3) ''A'' empty_store)) (cached_key ''A'') = None"
proof -
  have h1: "\<not> truthy (get (cached_key ''A'') empty_store)"
    by (simp add: get_def empty_store_def)
  have h2: "failing_fetcher (FetchError ''timeout'') 3 (clock empty_store) ''A'' = (Inl (FetchError ''timeout''), 3)"
    by (simp add: failing_fetcher_def)
  have c: "counter empty_store ''A'' = 0" "entries empty_store (cached_key ''A'') = None"
    by (simp_all add: counter_def empty_store_def)
  from fetch_failure_propagates
      [of "''A''" empty_store "failing_fetcher (FetchError ''timeout'') 3", OF h1 h2] h1 h2 c
  show ?thesis by simp
qed

text \<open>
  C5: the specification has two calls within the time-to-live fetch at most once. For
  a page that is the empty string the first call stores \<^verbatim>\<open>b''\<close>; the second
  call, one time unit later, reads it back, finds it false and fetches again: both
  calls return the same content, and the underlying function has been called twice.
\<close>

theorem empty_page_is_fetched_twice:
  "returned (wrapper (page_fetcher [] 0) ''A'' empty_store) = Inr []
   \<and> fetched (wrapper (page_fetcher [] 0) ''A'' empty_store) = [''A'']
   \<and> get (cached_key ''A'') (sleep 1 (final (wrapper (page_fetcher [] 0) ''A'' empty_store))) = Some []
   \<and> returned (wrapper (page_fetcher [] 0) ''A''
        (sleep 1 (final (wrapper (page_fetcher [] 0) ''A'' empty_store)))) = Inr []
   \<and> fetched (wrapper (page_fetcher [] 0) ''A''
        (sleep 1 (final (wrapper (page_fetcher [] 0) ''A'' empty_store)))) = [''A'']"
proof -
  let ?m = "page_fetcher [] 0"
  have miss: "\<not> truthy (get (cached_key ''A'') empty_store)"
    by (simp add: get_def empty_store_def)
  have m: "?m (clock empty_store) ''A'' = (Inr [], 0)"
    by (simp add: page_fetcher_def)
  have enc: "utf8_encode [] = Some []" by simp
  have w: "wrapper ?m ''A'' empty_store =
      \<lparr>returned = Inr [],
       final = (sleep 0 (snd (incr (count_key ''A'') empty_store)))
                 \<lparr>entries := (entries empty_store)(cached_key ''A'' \<mapsto> ([], clock empty_store + 0 + 10))\<rparr>,
       fetched = [''A'']\<rparr>"
    by (rule wrapper_miss [of "''A''" empty_store ?m, OF miss m enc])
  let ?s1 = "sleep 1 (final (wrapper ?m ''A'' empty_store))"
  have g: "get (cached_key ''A'') ?s1 = Some []"
    unfolding w by (simp add: get_def empty_store_def)
  then have miss2: "\<not> truthy (get (cached_key ''A'') ?s1)" by simp
  have m2: "?m (clock ?s1) ''A'' = (Inr [], 0)"
    by (simp add: page_fetcher_def)
  have w2: "wrapper ?m ''A'' ?s1 =
      \<lparr>returned = Inr [],
       final = (sleep 0 (snd (incr (count_key ''A'') ?s1)))
                 \<lparr>entries := (entries ?s1)(cached_key ''A'' \<mapsto> ([], clock ?s1 + 0 + 10))\<rparr>,
       fetched = [''A'']\<rparr>"
    by (rule wrapper_miss [of "''A''" ?s1 ?m, OF miss2 m2 enc])
  have r1: "returned (wrapper ?m ''A'' empty_store) = Inr []"
    and f1: "fetched (wrapper ?m ''A'' empty_store) = [''A'']"
    unfolding w by simp_all
  have r2: "returned (wrapper ?m ''A'' ?s1) = Inr []"
    and f2: "fetched (wrapper ?m ''A'' ?s1) = [''A'']"
    unfolding w2 by simp_all
  from r1 f1 g r2 f2 show ?thesis by simp
qed

text \<open>
  C6: take a store in which the cache entry of the URL, if there is one, expires within
  the time-to-live of 10 units, as in every store that calls of the wrapper have built
  up (\<open>ttl_bounded_run\<close>). After a call on the URL, whether it was served from the
  cache or fetched, let more than 10 units pass and call again. The second call finds
  nothing in the cache and runs the miss path in full: it calls the underlying function,
  returns or raises what that call gives, stores an encodable page with a fresh expiry,
  and the counter has gone up by two. If the first call was a miss too, the underlying
  function has now been called twice.
\<close>

theorem expired_entry_is_fetched_again:
  assumes "ttl_bounded s (cached_key k)" and "10 < t"
    and "method (clock (sleep t (final (wrapper method k s)))) k = (res, d)"
  shows "\<not> truthy (get (cached_key k) (sleep t (final (wrapper method k s))))
       \<and> fetched (wrapper method k (sleep t (final (wrapper method k s)))) = [k]
       \<and> fetched (wrapper method k s) @ fetched (wrapper method k (sleep t (final (wrapper method k s))))
           = (if truthy (get (cached_key k) s) then [k] else [k, k])
       \<and> returned (wrapper method k (sleep t (final (wrapper method k s)))) =
           (case res of
              Inl e \<Rightarrow> Inl e
            | Inr html \<Rightarrow>
                (case utf8_encode html of None \<Rightarrow> Inl UnicodeEncodeError | Some bs \<Rightarrow> Inr html))
       \<and> entries (final (wrapper method k (sleep t (final (wrapper method k s))))) (cached_key k) =
           (case res of
              Inl e \<Rightarrow> entries (final (wrapper method k s)) (cached_key k)
            | Inr html \<Rightarrow>
                (case utf8_encode html of
                   None \<Rightarrow> entries (final (wrapper method k s)) (cached_key k)
                 | Some bs \<Rightarrow> Some (bs, clock (final (wrapper method k s)) + t + d + 10)))
       \<and> counter (final (wrapper method k (sleep t (final (wrapper method k s))))) k = counter s k + 2"
proof -
  let ?s1 = "sleep t (final (wrapper method k s))"
  have "ttl_bounded (final (wrapper method k s)) (cached_key k)"
    using assms(1) by (rule ttl_bounded_wrapper)
  then have "get (cached_key k) ?s1 = None"
    using assms(2) by (rule ttl_bounded_expired)
  then have miss: "\<not> truthy (get (cached_key k) ?s1)" by simp
  note second = wrapper_miss_cases [of k ?s1 "method", OF miss assms(3)]
  have cnt: "counter (final (wrapper method k ?s1)) k = counter s k + 2"
    by (simp add: counter_wrapper)
  have both: "fetched (wrapper method k s) @ fetched (wrapper method k ?s1)
           = (if truthy (get (cached_key k) s) then [k] else [k, k])"
    using miss by (simp add: fetched_iff_miss)
  have f2: "fetched (wrapper method k ?s1) = [k]" by (rule second(1))
  have r2: "returned (wrapper method k ?s1) =
           (case res of
              Inl e \<Rightarrow> Inl e
            | Inr html \<Rightarrow>
                (case utf8_encode html of None \<Rightarrow> Inl UnicodeEncodeError | Some bs \<Rightarrow> Inr html))"
    by (rule second(3))
  have e2: "entries (final (wrapper method k ?s1)) (cached_key k) =
           (case res of
              Inl e \<Rightarrow> entries (final (wrapper method k s)) (cached_key k)
            | Inr html \<Rightarrow>
                (case utf8_encode html of
                   None \<Rightarrow> entries (final (wrapper method k s)) (cached_key k)
                 | Some bs \<Rightarrow> Some (bs, clock (final (wrapper method k s)) + t + d + 10)))"
    unfolding second(4) by (simp split: sum.splits option.splits)
  show ?thesis by (intro conjI) (fact miss f2 both r2 e2 cnt)+
qed

theorem expired_entry_is_fetched_again_witness:
  "ttl_bounded (store_with_entry (cached_key ''A'') [111, 108, 100] 7) (cached_key ''A'')
   \<and> (10::nat) < 11
   \<and> fetched (wrapper (page_fetcher [104, 105] 5) ''A''
        (store_with_entry (cached_key ''A'') [111, 108, 100] 7)) = []
   \<and> fetched (wrapper (page_fetcher [104, 105] 5) ''A''
        (sleep 11 (final (wrapper (page_fetcher [104, 105] 5) ''A''
           (store_with_entry (cached_key ''A'') [111, 108, 100] 7))))) = [''A'']
   \<and> returned (wrapper (page_fetcher [104, 105] 5) ''A''
        (sleep 11 (final (wrapper (page_fetcher [104, 105] 5) ''A''
           (store_with_entry (cached_key ''A'') [111, 108, 100] 7))))) = Inr [104, 105]
   \<and> entries (final (wrapper (page_fetcher [104, 105] 5) ''A''
        (sleep 11 (final (wrapper (page_fetcher [104, 105] 5) ''A''
           (store_with_entry (cached_key ''A'') [111, 108, 100] 7)))))) (cached_key ''A'')
       = Some ([104, 105], 26)
   \<and> counter (final (wrapper (page_fetcher [104, 105] 5) ''A''
        (sleep 11 (final (wrapper (page_fetcher [104, 105] 5) ''A''
           (store_with_entry (cached_key ''A'') [111, 108, 100] 7)))))) ''A'' = 2"
proof -
  let ?s = "store_with_entry (cached_key ''A'') [111, 108, 100] 7"
  let ?m = "page_fetcher [104, 105] 5"
  have h1: "ttl_bounded ?s (cached_key ''A'')"
    by (simp add: ttl_bounded_def store_with_entry_def)
  have h2: "(10::nat) < 11" by simp
  have h3: "?m (clock (sleep 11 (final (wrapper ?m ''A'' ?s)))) ''A'' = (Inr [104, 105], 5)"
    by (simp add: page_fetcher_def)
  have g: "get (cached_key ''A'') ?s = Some [111, 108, 100]"
    by (simp add: get_def store_with_entry_def)
  have hit: "truthy (get (cached_key ''A'') ?s)" unfolding g by simp
  have first: "wrapper ?m ''A'' ?s =
      \<lparr>returned = (case utf8_decode [111, 108, 100] of
                     None \<Rightarrow> Inl UnicodeDecodeError | Some text \<Rightarrow> Inr text),
       final = snd (incr (count_key ''A'') ?s), fetched = []\<rparr>"
    by (rule wrapper_hit [OF g]) simp
  have f1: "fetched (wrapper ?m ''A'' ?s) = []" unfolding first by simp
  have c1: "clock (final (wrapper ?m ''A'' ?s)) = 0"
    unfolding first by (simp add: store_with_entry_def)
  have c0: "counter ?s ''A'' = 0" by (simp add: counter_def store_with_entry_def)
  have enc: "utf8_encode [104, 105] = Some [104, 105]" by (simp add: encode_char_def)
  from expired_entry_is_fetched_again [of ?s "''A''" 11 ?m "Inr [104, 105]" 5, OF h1 h2 h3]
    h1 h2 f1 c1 c0 enc
  show ?thesis by simp
qed

text \<open>
  C7: a call on one URL leaves the counter entry and the cache entry of every other URL
  as they were. The counters after the call differ from those before at most at
  \<^verbatim>\<open>count:<url>\<close>, the cache entries at most at \<^verbatim>\<open>cached:<url>\<close>, and the
  four Store keys derived from two distinct URLs are pairwise distinct.
\<close>

theorem distinct_keys_do_not_interfere:
  assumes "k1 \<noteq> k2"
  shows "counters (final (wrapper method k1 s)) (count_key k2) = counters s (count_key k2)
       \<and> entries (final (wrapper method k1 s)) (cached_key k2) = entries s (cached_key k2)
       \<and> counters (final (wrapper method k1 s))
           = (counters s)(count_key k1 := counters (final (wrapper method k1 s)) (count_key k1))
       \<and> entries (final (wrapper method k1 s))
           = (entries s)(cached_key k1 := entries (final (wrapper method k1 s)) (cached_key k1))
       \<and> count_key k2 \<noteq> count_key k1 \<and> cached_key k2 \<noteq> cached_key k1
       \<and> count_key k2 \<noteq> cached_key k1 \<and> cached_key k2 \<noteq> count_key k1"
proof -
  have c: "counters (final (wrapper method k1 s))
           = (counters s)(count_key k1 := counters (final (wrapper method k1 s)) (count_key k1))"
    by (rule ext) (simp add: wrapper_counters_other)
  have e: "entries (final (wrapper method k1 s))
           = (entries s)(cached_key k1 := entries (final (wrapper method k1 s)) (cached_key k1))"
    by (rule ext) (simp add: wrapper_entries_other)
  from assms have "counters (final (wrapper method k1 s)) (count_key k2) = counters s (count_key k2)"
    by (simp add: wrapper_counters_other)
  moreover from assms have "entries (final (wrapper method k1 s)) (cached_key k2) = entries s (cached_key k2)"
    by (simp add: wrapper_entries_other)
  ultimately show ?thesis using assms c e by simp
qed

theorem distinct_keys_do_not_interfere_witness:
  "''A'' \<noteq> ''B''
   \<and> counters (final (wrapper (page_fetcher [104, 105] 5) ''A'' (store_with_entry (cached_key ''B'') [98] 7)))
        (count_key ''B'') = None
   \<and> entries (final (wrapper (page_fetcher [104, 105] 5) ''A'' (store_with_entry (cached_key ''B'') [98] 7)))
        (cached_key ''B'') = Some ([98], 7)"
proof -
  have h: "''A'' \<noteq> ''B''" by simp
  have c: "counters (store_with_entry (cached_key ''B'') [98] 7) (count_key ''B'') = None"
    "entries (store_with_entry (cached_key ''B'') [98] 7) (cached_key ''B'') = Some ([98], 7)"
    by (simp_all add: store_with_entry_def)
  from distinct_keys_do_not_interfere
      [of "''A''" "''B''" "page_fetcher [104, 105] 5" "store_with_entry (cached_key ''B'') [98] 7", OF h] h c
  show ?thesis by simp
qed

text \<open>
  C8: on every path, the cache entries after a call are those before it, except when
  the call reached the underlying function and got an encodable page: then exactly the
  slot of the URL is overwritten, with an expiry 10 units after the write. A hit, a
  fetch that raises and a page that cannot be encoded write nothing. The expiry does not
  depend on what the slot held before: from the write on, a reader sees the new content
  for a further \<open>t\<close> units exactly when \<open>t < 10\<close>.
\<close>

theorem cache_write_lives_ten_units:
  "entries (final (wrapper method k s)) =
     (if truthy (get (cached_key k) s) then entries s
      else case fst (method (clock s) k) of
             Inl e \<Rightarrow> entries s
           | Inr page \<Rightarrow>
               (case utf8_encode page of
                  None \<Rightarrow> entries s
                | Some v \<Rightarrow>
                    (entries s)(cached_key k \<mapsto> (v, clock (final (wrapper method k s)) + 10))))
   \<and> (\<not> truthy (get (cached_key k) s) \<and> method (clock s) k = (Inr html, d)
        \<and> utf8_encode html = Some bs \<longrightarrow>
        entries (final (wrapper method k s)) (cached_key k)
          = Some (bs, clock (final (wrapper method k s)) + 10)
        \<and> get (cached_key k) (sleep t (final (wrapper method k s)))
          = (if t < 10 then Some bs else None))"
proof (intro conjI impI)
  show "entries (final (wrapper method k s)) =
     (if truthy (get (cached_key k) s) then entries s
      else case fst (method (clock s) k) of
             Inl e \<Rightarrow> entries s
           | Inr page \<Rightarrow>
               (case utf8_encode page of
                  None \<Rightarrow> entries s
                | Some v \<Rightarrow>
                    (entries s)(cached_key k \<mapsto> (v, clock (final (wrapper method k s)) + 10))))"
    by (rule wrapper_entries)
next
  assume a: "\<not> truthy (get (cached_key k) s) \<and> method (clock s) k = (Inr html, d)
        \<and> utf8_encode html = Some bs"
  then have w: "wrapper method k s =
      \<lparr>returned = Inr html,
       final = (sleep d (snd (incr (count_key k) s)))
                 \<lparr>entries := (entries s)(cached_key k \<mapsto> (bs, clock s + d + 10))\<rparr>,
       fetched = [k]\<rparr>"
    by (simp add: wrapper_miss [of k s "method"])
  show "entries (final (wrapper method k s)) (cached_key k)
          = Some (bs, clock (final (wrapper method k s)) + 10)"
    unfolding w by simp
  show "get (cached_key k) (sleep t (final (wrapper method k s)))
          = (if t < 10 then Some bs else None)"
    unfolding w by (simp add: get_def)
qed

theorem cache_write_lives_ten_units_witness:
  "\<not> truthy (get (cached_key ''A'') (store_with_entry (cached_key ''A'') [] 7))
   \<and> get (cached_key ''A'') (store_with_entry (cached_key ''A'') [] 7) = Some []
   \<and> page_fetcher [104, 105] 2 (clock (store_with_entry (cached_key ''A'') [] 7)) ''A'' = (Inr [104, 105], 2)
   \<and> utf8_encode [104, 105] = Some [104, 105]
   \<and> entries (final (wrapper (page_fetcher [104, 105] 2) ''A'' (store_with_entry (cached_key ''A'') [] 7)))
        (cached_key ''A'') = Some ([104, 105], 12)
   \<and> get (cached_key ''A'')
        (sleep 9 (final (wrapper (page_fetcher [104, 105] 2) ''A'' (store_with_entry (cached_key ''A'') [] 7))))
       = Some [104, 105]"
proof -
  have g: "get (cached_key ''A'') (store_with_entry (cached_key ''A'') [] 7) = Some []"
    by (simp add: get_def store_with_entry_def)
  then have h1: "\<not> truthy (get (cached_key ''A'') (store_with_entry (cached_key ''A'') [] 7))"
    by simp
  have h2: "page_fetcher [104, 105] 2 (clock (store_with_entry (cached_key ''A'') [] 7)) ''A'' = (Inr [104, 105], 2)"
    by (simp add: page_fetcher_def)
  have h3: "utf8_encode [104, 105] = Some [104, 105]"
    by (simp add: encode_char_def)
  have c: "clock (final (wrapper (page_fetcher [104, 105] 2) ''A'' (store_with_entry (cached_key ''A'') [] 7))) = 2"
    unfolding wrapper_miss [of "''A''" "store_with_entry (cached_key ''A'') [] 7"
          "page_fetcher [104, 105] 2", OF h1 h2 h3]
    by (simp add: store_with_entry_def)
  from cache_write_lives_ten_units
      [of "page_fetcher [104, 105] 2" "''A''" "store_with_entry (cached_key ''A'') [] 7"
          "[104, 105]" 2 "[104, 105]" 9] g h1 h2 h3 c
  show ?thesis by simp
qed

text \<open>
  C9: a page that a miss fetched and stored comes back unchanged from a later hit. The
  miss returns the very value the underlying function returned; what it stores is the
  UTF-8 encoding of that value; and a later call within the time-to-live that is a hit
  returns the decoding of the stored bytes, which is the page again, without calling
  the underlying function (whatever that function would do by then).
\<close>

theorem cached_page_round_trip:
  assumes "\<not> truthy (get (cached_key k) s)"
    and "method (clock s) k = (Inr page, d)"
    and "utf8_encode page = Some bs"
    and "t < 10"
    and "truthy (get (cached_key k) (sleep t (final (wrapper method k s))))"
  shows "returned (wrapper method k s) = Inr page
       \<and> get (cached_key k) (sleep t (final (wrapper method k s))) = Some bs
       \<and> utf8_decode bs = Some page
       \<and> returned (wrapper method' k (sleep t (final (wrapper method k s)))) = Inr page
       \<and> fetched (wrapper method' k (sleep t (final (wrapper method k s)))) = []"
proof -
  let ?s' = "sleep t (final (wrapper method k s))"
  have w: "wrapper method k s =
      \<lparr>returned = Inr page,
       final = (sleep d (snd (incr (count_key k) s)))
                 \<lparr>entries := (entries s)(cached_key k \<mapsto> (bs, clock s + d + 10))\<rparr>,
       fetched = [k]\<rparr>"
    by (rule wrapper_miss [of k s "method", OF assms(1) assms(2) assms(3)])
  have g: "get (cached_key k) ?s' = Some bs"
    unfolding w using assms(4) by (simp add: get_def)
  with assms(5) have ne: "bs \<noteq> []" by simp
  have dec: "utf8_decode bs = Some page" by (rule utf8_roundtrip [OF assms(3)])
  have hit: "wrapper method' k ?s' =
      \<lparr>returned = (case utf8_decode bs of None \<Rightarrow> Inl UnicodeDecodeError | Some text \<Rightarrow> Inr text),
       final = snd (incr (count_key k) ?s'), fetched = []\<rparr>"
    by (rule wrapper_hit [OF g ne])
  have r2: "returned (wrapper method' k ?s') = Inr page"
    and f2: "fetched (wrapper method' k ?s') = []"
    unfolding hit by (simp_all add: dec)
  have r1: "returned (wrapper method k s) = Inr page" unfolding w by simp
  from r1 g dec r2 f2 show ?thesis by simp
qed

theorem cached_page_round_trip_witness:
  "\<not> truthy (get (cached_key ''A'') empty_store)
   \<and> page_fetcher [104, 233, 8364, 128512] 5 (clock empty_store) ''A'' = (Inr [104, 233, 8364, 128512], 5)
   \<and> utf8_encode [104, 233, 8364, 128512]
       = Some [104, 195, 169, 226, 130, 172, 240, 159, 152, 128]
   \<and> (1::nat) < 10
   \<and> truthy (get (cached_key ''A'')
        (sleep 1 (final (wrapper (page_fetcher [104, 233, 8364, 128512] 5) ''A'' empty_store))))
   \<and> returned (wrapper (failing_fetcher (FetchError ''timeout'') 0) ''A''
        (sleep 1 (final (wrapper (page_fetcher [104, 233, 8364, 128512] 5) ''A'' empty_store))))
       = Inr [104, 233, 8364, 128512]"
proof -
  let ?m = "page_fetcher [104, 233, 8364, 128512] 5"
  have h1: "\<not> truthy (get (cached_key ''A'') empty_store)"
    by (simp add: get_def empty_store_def)
  have h2: "?m (clock empty_store) ''A'' = (Inr [104, 233, 8364, 128512], 5)"
    by (simp add: page_fetcher_def)
  have h3: "utf8_encode [104, 233, 8364, 128512]
       = Some [104, 195, 169, 226, 130, 172, 240, 159, 152, 128]"
    by (simp add: encode_char_def cont_def)
  have h4: "(1::nat) < 10" by simp
  have w: "wrapper ?m ''A'' empty_store =
      \<lparr>returned = Inr [104, 233, 8364, 128512],
       final = (sleep 5 (snd (incr (count_key ''A'') empty_store)))
                 \<lparr>entries := (entries empty_store)(cached_key ''A'' \<mapsto>
                    ([104, 195, 169, 226, 130, 172, 240, 159, 152, 128], clock empty_store + 5 + 10))\<rparr>,
       fetched = [''A'']\<rparr>"
    by (rule wrapper_miss [of "''A''" empty_store ?m, OF h1 h2 h3])
  have h5: "truthy (get (cached_key ''A'') (sleep 1 (final (wrapper ?m ''A'' empty_store))))"
    unfolding w by (simp add: get_def empty_store_def)
  from cached_page_round_trip
      [of "''A''" empty_store ?m "[104, 233, 8364, 128512]" 5
          "[104, 195, 169, 226, 130, 172, 240, 159, 152, 128]" 1
          "failing_fetcher (FetchError ''timeout'') 0", OF h1 h2 h3 h4 h5] h1 h2 h3 h4 h5
  show ?thesis by simp
qed

end
